theory Spec2Isabelle
  imports Main "HOL-Library.Sublist"
begin

section \<open>JavaScript values used by \<^verbatim>\<open>src/lib/storage.ts\<close>\<close>

text \<open>
  A JavaScript string without lone surrogates is represented by the octets of its UTF-8
  encoding, as a \<^typ>\<open>string\<close>. Every separator the module splits on (\<^verbatim>\<open>'.'\<close>,
  \<^verbatim>\<open>'/o/'\<close>, \<^verbatim>\<open>'?'\<close>) and every literal it concatenates is ASCII, and an ASCII octet
  never occurs inside a multi-octet UTF-8 sequence, so splitting and concatenation agree
  with the UTF-16 original. A string with a lone surrogate has no such representation;
  \<^verbatim>\<open>encodeURIComponent\<close> throws on it, so no download URL holds its encoding.
\<close>

type_synonym js_string = string

text \<open>
  \<^verbatim>\<open>String.prototype.split(separator)\<close> without a limit. For a non-empty separator the
  string is scanned from the left; at each position where the separator matches, the
  text collected so far is emitted and the scan resumes behind the match. The text after
  the last match (possibly empty) is the last element, so the result is never empty.
  The source only splits on non-empty separators; for the empty separator every unit of
  the string is an element of its own.
\<close>

function split_scan :: "js_string \<Rightarrow> js_string \<Rightarrow> js_string \<Rightarrow> js_string list" where
  "split_scan sep cur [] = [cur]"
| "split_scan sep cur (c # cs) =
     (if sep \<noteq> [] \<and> prefix sep (c # cs)
      then cur # split_scan sep [] (drop (length sep) (c # cs))
      else split_scan sep (cur @ [c]) cs)"
  by pat_completeness auto
termination
  by (relation "measure (\<lambda>(sep, cur, s). length s)") auto

definition String_split :: "js_string \<Rightarrow> js_string \<Rightarrow> js_string list" where
  "String_split s sep = (if sep = [] then map (\<lambda>c. [c]) s else split_scan sep [] s)"

text \<open>\<^verbatim>\<open>Array.prototype.pop()\<close>: the last element, \<^verbatim>\<open>undefined\<close> on the empty array.\<close>

definition Array_pop :: "'a list \<Rightarrow> 'a option" where
  "Array_pop xs = (if xs = [] then None else Some (last xs))"

text \<open>\<^verbatim>\<open>xs[i]\<close> on an array: \<^verbatim>\<open>undefined\<close> out of range.\<close>

definition Array_at :: "'a list \<Rightarrow> nat \<Rightarrow> 'a option" where
  "Array_at xs i = (if i < length xs then Some (xs ! i) else None)"

text \<open>
  What a template literal inserts for a value of type \<^verbatim>\<open>string | undefined\<close>:
  the string itself, or the nine characters \<^verbatim>\<open>undefined\<close>.
\<close>

fun template_string :: "js_string option \<Rightarrow> js_string" where
  "template_string None = ''undefined''"
| "template_string (Some s) = s"

text \<open>
  What a template literal inserts for an integral Number: its decimal digits, with a
  leading minus sign below zero. \<^verbatim>\<open>Date.now()\<close> is an integer of magnitude at most
  8.64e15, far below 1e21 where JavaScript switches to exponent notation.
\<close>

definition digit_char :: "int \<Rightarrow> char" where
  "digit_char d = char_of (48 + d)"

function decimal_digits :: "int \<Rightarrow> js_string" where
  "decimal_digits n =
     (if n < 10 then [digit_char n] else decimal_digits (n div 10) @ [digit_char (n mod 10)])"
  by pat_completeness auto
termination
  by (relation "measure nat") auto

declare decimal_digits.simps [simp del]

definition Number_toString :: "int \<Rightarrow> js_string" where
  "Number_toString i =
     (if i < 0 then CHR ''-'' # decimal_digits (- i) else decimal_digits i)"

section \<open>The world outside the module\<close>

text \<open>Values that can be thrown, or that a promise can reject with.\<close>

datatype js_error =
    TypeError
  | URIError
  | FirebaseError js_string
  | Primitive js_string

text \<open>
  The test of the \<^verbatim>\<open>catch\<close> block in \<^verbatim>\<open>deleteImage\<close>:
  \<^verbatim>\<open>error && typeof error === 'object' && error.code === '...'\<close>.
  The built-in errors are objects without the code; a \<^verbatim>\<open>FirebaseError\<close> carries its
  code; a thrown primitive is no object.
\<close>

fun is_object :: "js_error \<Rightarrow> bool" where
  "is_object (Primitive _) = False"
| "is_object _ = True"

fun error_code :: "js_error \<Rightarrow> js_string option" where
  "error_code (FirebaseError c) = Some c"
| "error_code _ = None"

text \<open>A storage reference, as made by \<^verbatim>\<open>ref(storage, path)\<close>: it stands for the path given.\<close>

datatype storage_ref = Ref js_string

definition ref :: "js_string \<Rightarrow> storage_ref" where
  "ref path = Ref path"

record blob =
  blob_bytes :: js_string
  blob_type :: js_string

text \<open>A \<^verbatim>\<open>File\<close>: the parts, the name and the \<^verbatim>\<open>type\<close> option its constructor was given.\<close>

record js_file =
  file_bytes :: js_string
  file_name :: js_string
  file_type :: js_string

text \<open>The object of \<^verbatim>\<open>new URL(s)\<close>; the module reads its \<^verbatim>\<open>pathname\<close> only.\<close>

record url =
  pathname :: js_string

text \<open>The requests the module sends to the object store, in the order sent.\<close>

datatype store_request =
    UploadBytes storage_ref js_file
  | GetDownloadURL storage_ref
  | DeleteObject storage_ref

text \<open>
  The state around a call: the object store (of any type \<open>'s\<close>), the requests sent to it
  so far, the lines written with \<^verbatim>\<open>console.error\<close>, and the clock \<^verbatim>\<open>Date.now()\<close> reads.
\<close>

record 's world =
  store :: 's
  requests :: "store_request list"
  console :: "(js_string \<times> js_error) list"
  clock_ms :: int

definition Date_now :: "('s, 'x) world_scheme \<Rightarrow> int" where
  "Date_now w = clock_ms w"

section \<open>Path builders\<close>

definition getTattooImagePath ::
  "('s, 'x) world_scheme \<Rightarrow> js_string \<Rightarrow> js_string \<Rightarrow> js_string \<Rightarrow> js_string" where
  "getTattooImagePath w userId tattooId fileName =
     (let extension = Array_pop (String_split fileName ''.'');
          timestamp = Date_now w
      in ''tattoos/'' @ userId @ ''/'' @ tattooId @ ''_'' @ Number_toString timestamp
           @ ''.'' @ template_string extension)"

definition getGeneratedTattooImagePath ::
  "('s, 'x) world_scheme \<Rightarrow> js_string \<Rightarrow> js_string \<Rightarrow> js_string" where
  "getGeneratedTattooImagePath w userId tattooId =
     (let timestamp = Date_now w
      in ''generated_tattoos/'' @ userId @ ''/'' @ tattooId @ ''_'' @ Number_toString timestamp
           @ ''.png'')"

text \<open>The slash-delimited segments of a storage key.\<close>

definition key_segments :: "js_string \<Rightarrow> js_string list" where
  "key_segments k = String_split k ''/''"

section \<open>Percent-decoding\<close>

text \<open>The value of a hexadecimal digit, in either case.\<close>

definition hex_value :: "char \<Rightarrow> nat option" where
  "hex_value c =
     (let n = (of_char c :: nat)
      in if 48 \<le> n \<and> n \<le> 57 then Some (n - 48)
         else if 65 \<le> n \<and> n \<le> 70 then Some (n - 55)
         else if 97 \<le> n \<and> n \<le> 102 then Some (n - 87)
         else None)"

fun hex_octet :: "js_string \<Rightarrow> char option" where
  "hex_octet [h, l] =
     (case hex_value h of
        None \<Rightarrow> None
      | Some a \<Rightarrow> (case hex_value l of None \<Rightarrow> None | Some b \<Rightarrow> Some (char_of (16 * a + b))))"
| "hex_octet _ = None"

text \<open>The number of leading one bits of an octet (5 stands for five or more).\<close>

definition leading_ones :: "char \<Rightarrow> nat" where
  "leading_ones c =
     (let n = (of_char c :: nat)
      in if n < 128 then 0 else if n < 192 then 1 else if n < 224 then 2
         else if n < 240 then 3 else if n < 248 then 4 else 5)"

text \<open>
  The well-formed UTF-8 encodings of one code point beyond ASCII (Unicode, table 3-7):
  no overlong forms, no surrogates, nothing above U+10FFFF.
\<close>

definition continuation :: "nat \<Rightarrow> bool" where
  "continuation b = (128 \<le> b \<and> b \<le> 191)"

fun utf8_octets :: "nat list \<Rightarrow> bool" where
  "utf8_octets [a, b] = (194 \<le> a \<and> a \<le> 223 \<and> continuation b)"
| "utf8_octets [a, b, c] =
     ((a = 224 \<and> 160 \<le> b \<and> b \<le> 191 \<and> continuation c)
      \<or> (225 \<le> a \<and> a \<le> 236 \<and> continuation b \<and> continuation c)
      \<or> (a = 237 \<and> 128 \<le> b \<and> b \<le> 159 \<and> continuation c)
      \<or> (238 \<le> a \<and> a \<le> 239 \<and> continuation b \<and> continuation c))"
| "utf8_octets [a, b, c, d] =
     ((a = 240 \<and> 144 \<le> b \<and> b \<le> 191 \<and> continuation c \<and> continuation d)
      \<or> (241 \<le> a \<and> a \<le> 243 \<and> continuation b \<and> continuation c \<and> continuation d)
      \<or> (a = 244 \<and> 128 \<le> b \<and> b \<le> 143 \<and> continuation c \<and> continuation d))"
| "utf8_octets _ = False"

definition utf8_sequence :: "js_string \<Rightarrow> bool" where
  "utf8_sequence s = utf8_octets (map of_char s)"

text \<open>Reads \<open>n\<close> escapes \<^verbatim>\<open>%XX\<close> from the front of a string; \<open>None\<close> if one is missing.\<close>

fun continuation_octets :: "nat \<Rightarrow> js_string \<Rightarrow> js_string option" where
  "continuation_octets 0 s = Some []"
| "continuation_octets (Suc n) (p # h # l # rest) =
     (if p = CHR ''%''
      then (case hex_octet [h, l] of
              None \<Rightarrow> None
            | Some B \<Rightarrow> map_option (Cons B) (continuation_octets n rest))
      else None)"
| "continuation_octets (Suc n) _ = None"

fun append_result :: "js_string \<Rightarrow> js_error + js_string \<Rightarrow> js_error + js_string" where
  "append_result S (Inl e) = Inl e"
| "append_result S (Inr R) = Inr (S @ R)"

text \<open>
  \<^verbatim>\<open>decodeURIComponent\<close> (ECMAScript \<^verbatim>\<open>Decode\<close> with the empty reserved set). A character
  other than \<^verbatim>\<open>%\<close> is kept. A \<^verbatim>\<open>%\<close> must be followed by two hexadecimal digits, giving
  an octet \<open>B\<close>; with \<open>n\<close> leading one bits in \<open>B\<close>: for \<open>n = 0\<close> the octet is the
  character; \<open>n = 1\<close> and \<open>n > 4\<close> throw; otherwise \<open>n - 1\<close> further escapes must follow
  at once, and the \<open>n\<close> octets must encode one code point. Every failure throws
  \<^verbatim>\<open>URIError\<close>.
\<close>

function decodeURIComponent :: "js_string \<Rightarrow> js_error + js_string" where
  "decodeURIComponent [] = Inr []"
| "decodeURIComponent (c # cs) =
     (if c \<noteq> CHR ''%'' then append_result [c] (decodeURIComponent cs)
      else (case hex_octet (take 2 cs) of
              None \<Rightarrow> Inl URIError
            | Some B \<Rightarrow>
                if leading_ones B = 0 then append_result [B] (decodeURIComponent (drop 2 cs))
                else if leading_ones B = 1 \<or> 4 < leading_ones B then Inl URIError
                else (case continuation_octets (leading_ones B - 1) (drop 2 cs) of
                        None \<Rightarrow> Inl URIError
                      | Some octets \<Rightarrow>
                          if utf8_sequence (B # octets)
                          then append_result (B # octets)
                                 (decodeURIComponent (drop (2 + 3 * (leading_ones B - 1)) cs))
                          else Inl URIError)))"
  by pat_completeness auto
termination
  by (relation "measure length") auto

section \<open>Percent-encoding, as the provider applies it to a key\<close>

text \<open>
  Modelled from the spec: the code that issues download URLs belongs to the storage
  provider and is missing from the sources. The spec (sections 3 and 6) says the
  URL's path holds the storage key percent-encoded after a fixed marker segment, and
  that the Deleter undoes that encoding with percent-decoding. The encoding modelled
  is \<^verbatim>\<open>encodeURIComponent\<close>, the inverse of the \<^verbatim>\<open>decodeURIComponent\<close> the Deleter
  calls: letters, digits and \<^verbatim>\<open>- _ . ! ~ * ' ( )\<close> are kept, every other octet of the
  UTF-8 encoding becomes \<^verbatim>\<open>%XX\<close> in upper-case hexadecimal, and a string that is not
  well-formed (a lone surrogate in JavaScript) throws \<^verbatim>\<open>URIError\<close>.
\<close>

definition uriUnreserved :: "char \<Rightarrow> bool" where
  "uriUnreserved c =
     (let n = (of_char c :: nat)
      in (65 \<le> n \<and> n \<le> 90) \<or> (97 \<le> n \<and> n \<le> 122) \<or> (48 \<le> n \<and> n \<le> 57)
         \<or> c \<in> set ''-_.!~*'' \<or> c = CHR 0x27 \<or> c \<in> set ''()'')"

definition hex_digit :: "nat \<Rightarrow> char" where
  "hex_digit d = (if d < 10 then char_of (48 + d) else char_of (55 + d))"

definition encode_octet :: "char \<Rightarrow> js_string" where
  "encode_octet c =
     (if uriUnreserved c then [c]
      else [CHR ''%'', hex_digit ((of_char c :: nat) div 16), hex_digit ((of_char c :: nat) mod 16)])"

function well_formed_utf8 :: "js_string \<Rightarrow> bool" where
  "well_formed_utf8 [] = True"
| "well_formed_utf8 (c # cs) =
     (if leading_ones c = 0 then well_formed_utf8 cs
      else if leading_ones c = 1 \<or> 4 < leading_ones c then False
      else utf8_sequence (c # take (leading_ones c - 1) cs)
           \<and> well_formed_utf8 (drop (leading_ones c - 1) cs))"
  by pat_completeness auto
termination
  by (relation "measure length") auto

definition encodeURIComponent :: "js_string \<Rightarrow> js_error + js_string" where
  "encodeURIComponent s =
     (if well_formed_utf8 s then Inr (concat (map encode_octet s)) else Inl URIError)"

section \<open>The platform and the storage provider\<close>

text \<open>
  A response of \<^verbatim>\<open>fetch\<close>: what its \<^verbatim>\<open>blob()\<close> resolves to, or rejects with.
\<close>

datatype response = Response "js_error + blob"

fun response_blob :: "response \<Rightarrow> js_error + blob" where
  "response_blob (Response r) = r"

text \<open>
  The functions the module imports or takes from the platform, as parameters: the
  \<^verbatim>\<open>URL\<close> constructor (it throws \<^verbatim>\<open>TypeError\<close> on a string it cannot parse), the three
  calls of the storage provider, each acting on the store and either resolving or
  rejecting, and \<^verbatim>\<open>fetch\<close>.
\<close>

record 's platform =
  new_URL :: "js_string \<Rightarrow> js_error + url"
  uploadBytes :: "storage_ref \<Rightarrow> js_file \<Rightarrow> 's \<Rightarrow> (js_error + unit) \<times> 's"
  getDownloadURL :: "storage_ref \<Rightarrow> 's \<Rightarrow> (js_error + js_string) \<times> 's"
  deleteObject :: "storage_ref \<Rightarrow> 's \<Rightarrow> (js_error + unit) \<times> 's"
  fetch :: "js_string \<Rightarrow> js_error + response"

text \<open>Sending a request: the provider acts on the store, and the request is recorded.\<close>

definition send_uploadBytes ::
  "'s platform \<Rightarrow> storage_ref \<Rightarrow> js_file \<Rightarrow> 's world \<Rightarrow> (js_error + unit) \<times> 's world" where
  "send_uploadBytes P r f w =
     (case uploadBytes P r f (store w) of
        (res, s') \<Rightarrow> (res, w\<lparr>store := s', requests := requests w @ [UploadBytes r f]\<rparr>))"

definition send_getDownloadURL ::
  "'s platform \<Rightarrow> storage_ref \<Rightarrow> 's world \<Rightarrow> (js_error + js_string) \<times> 's world" where
  "send_getDownloadURL P r w =
     (case getDownloadURL P r (store w) of
        (res, s') \<Rightarrow> (res, w\<lparr>store := s', requests := requests w @ [GetDownloadURL r]\<rparr>))"

definition send_deleteObject ::
  "'s platform \<Rightarrow> storage_ref \<Rightarrow> 's world \<Rightarrow> (js_error + unit) \<times> 's world" where
  "send_deleteObject P r w =
     (case deleteObject P r (store w) of
        (res, s') \<Rightarrow> (res, w\<lparr>store := s', requests := requests w @ [DeleteObject r]\<rparr>))"

definition console_error :: "js_string \<Rightarrow> js_error \<Rightarrow> 's world \<Rightarrow> 's world" where
  "console_error msg e w = w\<lparr>console := console w @ [(msg, e)]\<rparr>"

section \<open>Uploader\<close>

text \<open>
  An \<^verbatim>\<open>async\<close> function returns a promise: \<open>Inr\<close> is the value it resolves to, \<open>Inl\<close> the
  value it rejects with. An \<^verbatim>\<open>await\<close> of a rejected promise outside \<^verbatim>\<open>try\<close> rejects the
  caller's promise with the same value.
\<close>

definition uploadImage ::
  "'s platform \<Rightarrow> js_file \<Rightarrow> js_string \<Rightarrow> 's world \<Rightarrow> (js_error + js_string) \<times> 's world" where
  "uploadImage P file' path w =
     (let storageRef = ref path
      in case send_uploadBytes P storageRef file' w of
           (Inl e, w1) \<Rightarrow> (Inl e, w1)
         | (Inr _, w1) \<Rightarrow>
             (case send_getDownloadURL P storageRef w1 of
                (Inl e, w2) \<Rightarrow> (Inl e, w2)
              | (Inr downloadURL, w2) \<Rightarrow> (Inr downloadURL, w2)))"

section \<open>Deleter\<close>

text \<open>\<^verbatim>\<open>x || d\<close> for \<open>x\<close> a string or \<^verbatim>\<open>undefined\<close>: both \<^verbatim>\<open>undefined\<close> and \<^verbatim>\<open>''\<close> are falsy.\<close>

fun js_or :: "js_string option \<Rightarrow> js_string \<Rightarrow> js_string" where
  "js_or None d = d"
| "js_or (Some s) d = (if s = [] then d else s)"

text \<open>
  The two statements that compute \<^verbatim>\<open>path\<close>:
  \<^verbatim>\<open>url.pathname.split('/o/')[1]?.split('?')[0] || ''\<close>, then \<^verbatim>\<open>decodeURIComponent\<close>.
  Either the constructor or the decoder may throw.
\<close>

definition marker_segment :: "js_string \<Rightarrow> js_string option" where
  "marker_segment pathname' =
     (case Array_at (String_split pathname' ''/o/'') 1 of
        None \<Rightarrow> None
      | Some seg \<Rightarrow> Array_at (String_split seg ''?'') 0)"

definition deleteImage_path :: "'s platform \<Rightarrow> js_string \<Rightarrow> js_error + js_string" where
  "deleteImage_path P imageUrl =
     (case new_URL P imageUrl of
        Inl e \<Rightarrow> Inl e
      | Inr u \<Rightarrow> decodeURIComponent (js_or (marker_segment (pathname u)) []))"

text \<open>The body of the \<^verbatim>\<open>try\<close> block.\<close>

definition deleteImage_try ::
  "'s platform \<Rightarrow> js_string \<Rightarrow> 's world \<Rightarrow> (js_error + unit) \<times> 's world" where
  "deleteImage_try P imageUrl w =
     (case deleteImage_path P imageUrl of
        Inl e \<Rightarrow> (Inl e, w)
      | Inr path \<Rightarrow>
          if path \<noteq> [] then send_deleteObject P (ref path) w else (Inr (), w))"

fun truthy :: "js_error \<Rightarrow> bool" where
  "truthy (Primitive s) = (s \<noteq> [])"
| "truthy _ = True"

text \<open>The whole function: the \<^verbatim>\<open>catch\<close> block returns on not-found and logs anything else.\<close>

definition deleteImage ::
  "'s platform \<Rightarrow> js_string \<Rightarrow> 's world \<Rightarrow> (js_error + unit) \<times> 's world" where
  "deleteImage P imageUrl w =
     (case deleteImage_try P imageUrl w of
        (Inr _, w') \<Rightarrow> (Inr (), w')
      | (Inl error, w') \<Rightarrow>
          if truthy error \<and> is_object error
             \<and> error_code error = Some ''storage/object-not-found''
          then (Inr (), w')
          else (Inr (), console_error ''Error deleting image:'' error w'))"

section \<open>Blob converter\<close>

definition new_File :: "blob list \<Rightarrow> js_string \<Rightarrow> js_string \<Rightarrow> js_file" where
  "new_File parts name type' =
     \<lparr>file_bytes = concat (map blob_bytes parts), file_name = name, file_type = type'\<rparr>"

definition blobUrlToFile :: "'s platform \<Rightarrow> js_string \<Rightarrow> js_string \<Rightarrow> js_error + js_file" where
  "blobUrlToFile P blobUrl fileName =
     (case fetch P blobUrl of
        Inl e \<Rightarrow> Inl e
      | Inr response' \<Rightarrow>
          (case response_blob response' of
             Inl e \<Rightarrow> Inl e
           | Inr blob' \<Rightarrow>
               Inr (new_File [blob'] fileName (js_or (Some (blob_type blob')) ''image/png''))))"

section \<open>A small platform to run the module on\<close>

text \<open>
  A stand-in for the platform, used to evaluate the module on concrete inputs: a URL
  parser for \<^verbatim>\<open>https://host/path?query#fragment\<close>, a store that is a list of keys with
  their files, and a provider that issues download URLs of the shape the spec describes.
\<close>

definition demo_URL :: "js_string \<Rightarrow> js_error + url" where
  "demo_URL s =
     (if prefix ''https://'' s
      then Inr \<lparr>pathname = takeWhile (\<lambda>c. c \<noteq> CHR ''?'' \<and> c \<noteq> CHR ''#'')
                              (dropWhile (\<lambda>c. c \<noteq> CHR ''/'') (drop 8 s))\<rparr>
      else Inl TypeError)"

type_synonym demo_store = "(js_string \<times> js_file) list"

fun demo_uploadBytes :: "storage_ref \<Rightarrow> js_file \<Rightarrow> demo_store \<Rightarrow> (js_error + unit) \<times> demo_store" where
  "demo_uploadBytes (Ref k) f s = (Inr (), (k, f) # filter (\<lambda>kv. fst kv \<noteq> k) s)"

fun demo_getDownloadURL :: "storage_ref \<Rightarrow> demo_store \<Rightarrow> (js_error + js_string) \<times> demo_store" where
  "demo_getDownloadURL (Ref k) s =
     (if k \<in> fst ` set s
      then (case encodeURIComponent k of
              Inl e \<Rightarrow> (Inl e, s)
            | Inr enc \<Rightarrow> (Inr (''https://storage.example/v0/b/demo-bucket/o/'' @ enc
                               @ ''?alt=media&token=t0''), s))
      else (Inl (FirebaseError ''storage/object-not-found''), s))"

fun demo_deleteObject :: "storage_ref \<Rightarrow> demo_store \<Rightarrow> (js_error + unit) \<times> demo_store" where
  "demo_deleteObject (Ref k) s =
     (if k \<in> fst ` set s then (Inr (), filter (\<lambda>kv. fst kv \<noteq> k) s)
      else (Inl (FirebaseError ''storage/object-not-found''), s))"

definition demo_fetch :: "js_string \<Rightarrow> js_error + response" where
  "demo_fetch u =
     (if u = ''blob:typed'' then Inr (Response (Inr \<lparr>blob_bytes = ''abc'', blob_type = ''image/jpeg''\<rparr>))
      else if u = ''blob:untyped'' then Inr (Response (Inr \<lparr>blob_bytes = ''abc'', blob_type = []\<rparr>))
      else Inl TypeError)"

definition demo_platform :: "demo_store platform" where
  "demo_platform =
     \<lparr>new_URL = demo_URL, uploadBytes = demo_uploadBytes, getDownloadURL = demo_getDownloadURL,
      deleteObject = demo_deleteObject, fetch = demo_fetch\<rparr>"

definition demo_world :: "demo_store world" where
  "demo_world = \<lparr>store = [], requests = [], console = [], clock_ms = 1700000000000\<rparr>"

definition demo_file :: js_file where
  "demo_file = \<lparr>file_bytes = ''abc'', file_name = ''photo.jpg'', file_type = ''image/jpeg''\<rparr>"

text \<open>A provider whose every call rejects with the given error and leaves the store alone.\<close>

definition rejecting_platform :: "js_error \<Rightarrow> demo_store platform" where
  "rejecting_platform e =
     \<lparr>new_URL = demo_URL,
      uploadBytes = (\<lambda>r f s. (Inl e, s)),
      getDownloadURL = (\<lambda>r s. (Inl e, s)),
      deleteObject = (\<lambda>r s. (Inl e, s)),
      fetch = demo_fetch\<rparr>"

text \<open>A provider that stores the bytes but cannot resolve a download URL.\<close>

definition unresolving_platform :: "js_error \<Rightarrow> demo_store platform" where
  "unresolving_platform e =
     \<lparr>new_URL = demo_URL,
      uploadBytes = demo_uploadBytes,
      getDownloadURL = (\<lambda>r s. (Inl e, s)),
      deleteObject = demo_deleteObject,
      fetch = demo_fetch\<rparr>"

section \<open>Facts about splitting and number rendering\<close>

lemma split_scan_nonempty: "split_scan sep cur s \<noteq> []"
  by (induction sep cur s rule: split_scan.induct) auto

lemma split_scan_absent: "c \<notin> set s \<Longrightarrow> split_scan [c] cur s = [cur @ s]"
  by (induction s arbitrary: cur) auto

lemma split_scan_last:
  "last (split_scan [c] cur (a @ c # b)) = last (split_scan [c] [] b)"
  by (induction a arbitrary: cur) (auto simp: split_scan_nonempty)


lemma split_scan_hd: "hd (split_scan [c] cur s) = cur @ takeWhile (\<lambda>x. x \<noteq> c) s"
  by (induction s arbitrary: cur) auto

lemma pop_split_absent:
  "CHR ''.'' \<notin> set fileName \<Longrightarrow> Array_pop (String_split fileName ''.'') = Some fileName"
  by (simp add: Array_pop_def String_split_def split_scan_absent)

lemma pop_split_last:
  "CHR ''.'' \<notin> set ext \<Longrightarrow> Array_pop (String_split (pre @ ''.'' @ ext) ''.'') = Some ext"
  by (simp add: Array_pop_def String_split_def split_scan_nonempty split_scan_last split_scan_absent)

lemma digit_char_code: "0 \<le> d \<Longrightarrow> d < 10 \<Longrightarrow> (of_char (digit_char d) :: int) = 48 + d"
  by (simp add: digit_char_def)

lemma decimal_digits_range:
  "0 \<le> n \<Longrightarrow> c \<in> set (decimal_digits n) \<Longrightarrow> 48 \<le> (of_char c :: int) \<and> (of_char c :: int) \<le> 57"
proof (induction n rule: decimal_digits.induct)
  case (1 n)
  show ?case
  proof (cases "n < 10")
    case True
    with 1(3) have "c = digit_char n" by (subst (asm) decimal_digits.simps) simp
    with digit_char_code[of n] 1(2) True show ?thesis by simp
  next
    case False
    with 1(3) have "c \<in> set (decimal_digits (n div 10)) \<or> c = digit_char (n mod 10)"
      by (subst (asm) decimal_digits.simps) auto
    then show ?thesis
    proof
      assume "c \<in> set (decimal_digits (n div 10))"
      with 1(1)[OF False] 1(2) show ?thesis by simp
    next
      assume "c = digit_char (n mod 10)"
      with digit_char_code[of "n mod 10"] show ?thesis by simp
    qed
  qed
qed




lemma hd_segments:
  "CHR ''/'' \<notin> set cat \<Longrightarrow> hd (key_segments (cat @ ''/'' @ rest)) = cat"
proof -
  assume a: "CHR ''/'' \<notin> set cat"
  then have "takeWhile (\<lambda>x. x \<noteq> CHR ''/'') (cat @ CHR ''/'' # rest) = cat"
    by (induction cat) auto
  then show ?thesis
    by (simp add: key_segments_def String_split_def split_scan_hd)
qed

lemma Number_toString_demo: "Number_toString 1700000000000 = ''1700000000000''"
  by code_simp


lemma split_scan_no_match: "\<not> sublist sep s \<Longrightarrow> split_scan sep cur s = [cur @ s]"
  by (induction s arbitrary: cur) (auto simp: sublist_Cons_right)

lemma marker_segment_absent: "\<not> sublist ''/o/'' p \<Longrightarrow> marker_segment p = None"
  by (simp add: marker_segment_def String_split_def split_scan_no_match Array_at_def)

lemma not_found_iff:
  "truthy e \<and> is_object e \<and> error_code e = Some c \<longleftrightarrow> e = FirebaseError c"
  by (cases e) auto

text \<open>
  When one of the two parsing statements throws, the \<^verbatim>\<open>catch\<close> block writes the error to
  the console (unless it carries the not-found code) and the call resolves.
\<close>

lemma deleteImage_parse_error_logged:
  "deleteImage_path P imageUrl = Inl e \<Longrightarrow>
   deleteImage P imageUrl w =
     (Inr (), if e = FirebaseError ''storage/object-not-found'' then w
              else console_error ''Error deleting image:'' e w)"
  using not_found_iff[of e "''storage/object-not-found''"]
  by (auto simp: deleteImage_def deleteImage_try_def)

section \<open>Path builders: the extension\<close>

text \<open>
  C2, as stated, does not hold. \<^verbatim>\<open>split('.')\<close> of a name without a dot is the one-element
  array holding the name, so \<^verbatim>\<open>pop()\<close> returns the whole name and never \<^verbatim>\<open>undefined\<close>:
  for the name \<^verbatim>\<open>photo\<close> the key ends in \<^verbatim>\<open>.photo\<close>, not in \<^verbatim>\<open>.undefined\<close>.
\<close>

theorem getTattooImagePath_undefined_counterexample:
  "CHR ''.'' \<notin> set ''photo''
   \<and> getTattooImagePath demo_world ''u1'' ''t1'' ''photo'' = ''tattoos/u1/t1_1700000000000.photo''
   \<and> \<not> suffix ''.undefined'' (getTattooImagePath demo_world ''u1'' ''t1'' ''photo'')"
  by code_simp

text \<open>
  C2, amended: for every \<open>userId\<close> and \<open>tattooId\<close> and every \<open>fileName\<close> without a dot,
  \<^verbatim>\<open>getTattooImagePath\<close> returns
  \<^verbatim>\<open>tattoos/<userId>/<tattooId>_<timestampMs>.<fileName>\<close>: the extension segment is the
  whole file name.
\<close>

theorem getTattooImagePath_no_dot:
  "CHR ''.'' \<notin> set fileName \<Longrightarrow>
   getTattooImagePath w userId tattooId fileName =
     ''tattoos/'' @ userId @ ''/'' @ tattooId @ ''_'' @ Number_toString (Date_now w) @ ''.'' @ fileName"
  by (simp add: getTattooImagePath_def pop_split_absent)

text \<open>C2, amended, at the file name \<^verbatim>\<open>photo\<close>.\<close>

theorem getTattooImagePath_no_dot_witness:
  "CHR ''.'' \<notin> set ''photo''
   \<and> getTattooImagePath demo_world ''u1'' ''t1'' ''photo'' = ''tattoos/u1/t1_1700000000000.photo''"
  using getTattooImagePath_no_dot[of "''photo''" demo_world "''u1''" "''t1''"]
  by (simp add: Date_now_def demo_world_def Number_toString_demo)

text \<open>
  C3: for every \<open>userId\<close>, \<open>tattooId\<close> and every \<open>fileName\<close> with at least one dot, the
  file name splits as \<open>pre.ext\<close> with no dot in \<open>ext\<close>, and for every such splitting
  \<^verbatim>\<open>getTattooImagePath\<close> returns \<^verbatim>\<open>tattoos/<userId>/<tattooId>_<timestampMs>.<ext>\<close>:
  the category is the user-asset namespace \<^verbatim>\<open>tattoos\<close>, the timestamp is the clock's
  reading at the call, and the extension is what follows the last dot of the file name.
\<close>

theorem getTattooImagePath_extension:
  assumes "CHR ''.'' \<in> set fileName"
  shows "(\<exists>pre ext. fileName = pre @ ''.'' @ ext \<and> CHR ''.'' \<notin> set ext)
         \<and> (\<forall>pre ext. fileName = pre @ ''.'' @ ext \<and> CHR ''.'' \<notin> set ext \<longrightarrow>
              getTattooImagePath w userId tattooId fileName =
                ''tattoos/'' @ userId @ ''/'' @ tattooId @ ''_'' @ Number_toString (Date_now w)
                  @ ''.'' @ ext)"
proof
  from split_list_last[OF assms]
  show "\<exists>pre ext. fileName = pre @ ''.'' @ ext \<and> CHR ''.'' \<notin> set ext" by auto
next
  show "\<forall>pre ext. fileName = pre @ ''.'' @ ext \<and> CHR ''.'' \<notin> set ext \<longrightarrow>
          getTattooImagePath w userId tattooId fileName =
            ''tattoos/'' @ userId @ ''/'' @ tattooId @ ''_'' @ Number_toString (Date_now w)
              @ ''.'' @ ext"
  proof (intro allI impI)
    fix pre ext
    assume "fileName = pre @ ''.'' @ ext \<and> CHR ''.'' \<notin> set ext"
    then show "getTattooImagePath w userId tattooId fileName =
            ''tattoos/'' @ userId @ ''/'' @ tattooId @ ''_'' @ Number_toString (Date_now w)
              @ ''.'' @ ext"
      using pop_split_last[of ext pre] by (simp add: getTattooImagePath_def)
  qed
qed

text \<open>C3 at the spec's example, \<^verbatim>\<open>photo.jpg\<close> at 1700000000000.\<close>

theorem getTattooImagePath_extension_witness:
  "CHR ''.'' \<in> set ''photo.jpg''
   \<and> ''photo.jpg'' = ''photo'' @ ''.'' @ ''jpg'' \<and> CHR ''.'' \<notin> set ''jpg''
   \<and> getTattooImagePath demo_world ''u1'' ''t1'' ''photo.jpg'' = ''tattoos/u1/t1_1700000000000.jpg''"
proof -
  have d: "CHR ''.'' \<in> set ''photo.jpg''" by simp
  from getTattooImagePath_extension[OF d, of demo_world "''u1''" "''t1''"]
  have "''photo.jpg'' = ''photo'' @ ''.'' @ ''jpg'' \<and> CHR ''.'' \<notin> set ''jpg'' \<longrightarrow>
        getTattooImagePath demo_world ''u1'' ''t1'' ''photo.jpg'' =
          ''tattoos/'' @ ''u1'' @ ''/'' @ ''t1'' @ ''_'' @ Number_toString (Date_now demo_world)
            @ ''.'' @ ''jpg''"
    by blast
  then show ?thesis
    by (simp add: Date_now_def demo_world_def Number_toString_demo)
qed

section \<open>Path builders: generated assets, determinism, segments\<close>

text \<open>
  C6: for every \<open>userId\<close> and \<open>tattooId\<close>, \<^verbatim>\<open>getGeneratedTattooImagePath\<close> returns
  \<^verbatim>\<open>generated_tattoos/<userId>/<tattooId>_<timestampMs>.png\<close>: the same shape, ending in
  \<^verbatim>\<open>.png\<close>, and its first segment \<^verbatim>\<open>generated_tattoos\<close> differs from the first segment
  \<^verbatim>\<open>tattoos\<close> of every key of \<^verbatim>\<open>getTattooImagePath\<close>.
\<close>

theorem getGeneratedTattooImagePath_shape:
  "getGeneratedTattooImagePath w userId tattooId =
     ''generated_tattoos/'' @ userId @ ''/'' @ tattooId @ ''_'' @ Number_toString (Date_now w) @ ''.png''
   \<and> suffix ''.png'' (getGeneratedTattooImagePath w userId tattooId)
   \<and> hd (key_segments (getGeneratedTattooImagePath w userId tattooId)) = ''generated_tattoos''
   \<and> hd (key_segments (getTattooImagePath w' userId' tattooId' fileName)) = ''tattoos''
   \<and> hd (key_segments (getGeneratedTattooImagePath w userId tattooId))
       \<noteq> hd (key_segments (getTattooImagePath w' userId' tattooId' fileName))"
proof -
  have eq: "getGeneratedTattooImagePath w userId tattooId =
     ''generated_tattoos/'' @ userId @ ''/'' @ tattooId @ ''_'' @ Number_toString (Date_now w) @ ''.png''"
    by (simp add: getGeneratedTattooImagePath_def)
  have suf: "suffix ''.png'' (getGeneratedTattooImagePath w userId tattooId)"
    unfolding eq suffix_def
    by (rule exI[of _ "''generated_tattoos/'' @ userId @ ''/'' @ tattooId @ ''_'' @ Number_toString (Date_now w)"]) simp
  have g: "hd (key_segments (getGeneratedTattooImagePath w userId tattooId)) = ''generated_tattoos''"
    using hd_segments[of "''generated_tattoos''"
        "userId @ ''/'' @ tattooId @ ''_'' @ Number_toString (Date_now w) @ ''.png''"]
    by (simp add: eq)
  have t: "hd (key_segments (getTattooImagePath w' userId' tattooId' fileName)) = ''tattoos''"
    using hd_segments[of "''tattoos''"
        "userId' @ ''/'' @ tattooId' @ ''_'' @ Number_toString (Date_now w') @ ''.''
           @ template_string (Array_pop (String_split fileName ''.''))"]
    by (simp add: getTattooImagePath_def)
  show ?thesis using eq suf g t by simp
qed

text \<open>
  C9: for each path builder, two calls with the same arguments whose clock readings are
  equal return the same key, whatever else differs between the two worlds; so two such
  calls return different keys only if the clock readings differ.
\<close>

theorem path_builders_deterministic:
  "(Date_now w1 = Date_now w2 \<longrightarrow>
      getTattooImagePath w1 userId tattooId fileName = getTattooImagePath w2 userId tattooId fileName
      \<and> getGeneratedTattooImagePath w1 userId tattooId = getGeneratedTattooImagePath w2 userId tattooId)
   \<and> (getTattooImagePath w1 userId tattooId fileName \<noteq> getTattooImagePath w2 userId tattooId fileName
        \<longrightarrow> Date_now w1 \<noteq> Date_now w2)
   \<and> (getGeneratedTattooImagePath w1 userId tattooId \<noteq> getGeneratedTattooImagePath w2 userId tattooId
        \<longrightarrow> Date_now w1 \<noteq> Date_now w2)"
  by (auto simp: getTattooImagePath_def getGeneratedTattooImagePath_def)

text \<open>C9 at two different worlds whose clocks read the same millisecond.\<close>

theorem path_builders_deterministic_witness:
  "Date_now demo_world = Date_now (demo_world\<lparr>requests := [DeleteObject (Ref ''k'')]\<rparr>)
   \<and> demo_world \<noteq> demo_world\<lparr>requests := [DeleteObject (Ref ''k'')]\<rparr>
   \<and> getTattooImagePath demo_world ''u1'' ''t1'' ''photo.jpg''
       = getTattooImagePath (demo_world\<lparr>requests := [DeleteObject (Ref ''k'')]\<rparr>) ''u1'' ''t1'' ''photo.jpg''
   \<and> getGeneratedTattooImagePath demo_world ''u1'' ''t1''
       = getGeneratedTattooImagePath (demo_world\<lparr>requests := [DeleteObject (Ref ''k'')]\<rparr>) ''u1'' ''t1''"
  using path_builders_deterministic[of demo_world "demo_world\<lparr>requests := [DeleteObject (Ref ''k'')]\<rparr>"
      "''u1''" "''t1''" "''photo.jpg''"]
  by (simp add: Date_now_def demo_world_def)



section \<open>Blob converter\<close>

text \<open>
  C8: whenever the blob reference can be fetched and read, \<^verbatim>\<open>blobUrlToFile\<close> returns a file
  with the name \<open>fileName\<close>, the blob's bytes, and as MIME type the blob's type if that
  is not empty, and \<^verbatim>\<open>image/png\<close> if it is.
\<close>

theorem blobUrlToFile_type:
  "fetch P blobUrl = Inr r \<Longrightarrow> response_blob r = Inr b \<Longrightarrow>
   \<exists>f. blobUrlToFile P blobUrl fileName = Inr f
       \<and> file_name f = fileName
       \<and> file_bytes f = blob_bytes b
       \<and> file_type f = (if blob_type b \<noteq> [] then blob_type b else ''image/png'')"
  by (simp add: blobUrlToFile_def new_File_def)

text \<open>C8 at a blob without a type and at a blob of type \<^verbatim>\<open>image/jpeg\<close>.\<close>

theorem blobUrlToFile_type_witness:
  "blobUrlToFile demo_platform ''blob:untyped'' ''x.png''
     = Inr \<lparr>file_bytes = ''abc'', file_name = ''x.png'', file_type = ''image/png''\<rparr>
   \<and> blobUrlToFile demo_platform ''blob:typed'' ''x.png''
     = Inr \<lparr>file_bytes = ''abc'', file_name = ''x.png'', file_type = ''image/jpeg''\<rparr>"
  using blobUrlToFile_type[of demo_platform "''blob:untyped''"
      "Response (Inr \<lparr>blob_bytes = ''abc'', blob_type = []\<rparr>)" "\<lparr>blob_bytes = ''abc'', blob_type = []\<rparr>" "''x.png''"]
    blobUrlToFile_type[of demo_platform "''blob:typed''"
      "Response (Inr \<lparr>blob_bytes = ''abc'', blob_type = ''image/jpeg''\<rparr>)"
      "\<lparr>blob_bytes = ''abc'', blob_type = ''image/jpeg''\<rparr>" "''x.png''"]
  by (auto simp: demo_platform_def demo_fetch_def)

section \<open>Uploader\<close>

text \<open>
  C7: \<^verbatim>\<open>uploadImage\<close> first sends the write for the path, then asks for the download URL
  of the same path, and resolves to that URL. If the write rejects, the promise rejects
  with the same error and the URL is never asked for; if the URL request rejects, the
  promise rejects with the same error. Each request is sent at most once, and the result
  is either the URL or the error.
\<close>

theorem uploadImage_outcomes:
  "(uploadBytes P (ref path) f (store w) = (Inl e, s1) \<longrightarrow>
      uploadImage P f path w
        = (Inl e, w\<lparr>store := s1, requests := requests w @ [UploadBytes (ref path) f]\<rparr>))
   \<and> (uploadBytes P (ref path) f (store w) = (Inr (), s1)
        \<and> getDownloadURL P (ref path) s1 = (Inl e, s2) \<longrightarrow>
      uploadImage P f path w
        = (Inl e, w\<lparr>store := s2,
                     requests := requests w @ [UploadBytes (ref path) f, GetDownloadURL (ref path)]\<rparr>))
   \<and> (uploadBytes P (ref path) f (store w) = (Inr (), s1)
        \<and> getDownloadURL P (ref path) s1 = (Inr downloadURL, s2) \<longrightarrow>
      uploadImage P f path w
        = (Inr downloadURL, w\<lparr>store := s2,
                     requests := requests w @ [UploadBytes (ref path) f, GetDownloadURL (ref path)]\<rparr>))"
  by (simp add: uploadImage_def send_uploadBytes_def send_getDownloadURL_def Let_def)

text \<open>C7 at a provider that rejects the write, one that rejects the URL request, and one that does neither.\<close>

theorem uploadImage_outcomes_witness:
  "uploadImage (rejecting_platform (FirebaseError ''storage/unauthorized'')) demo_file ''k'' demo_world
     = (Inl (FirebaseError ''storage/unauthorized''),
        demo_world\<lparr>store := [], requests := [UploadBytes (Ref ''k'') demo_file]\<rparr>)
   \<and> uploadImage (unresolving_platform (FirebaseError ''storage/retry-limit-exceeded'')) demo_file ''k'' demo_world
     = (Inl (FirebaseError ''storage/retry-limit-exceeded''),
        demo_world\<lparr>store := [(''k'', demo_file)],
                    requests := [UploadBytes (Ref ''k'') demo_file, GetDownloadURL (Ref ''k'')]\<rparr>)
   \<and> uploadImage demo_platform demo_file ''k'' demo_world
     = (Inr ''https://storage.example/v0/b/demo-bucket/o/k?alt=media&token=t0'',
        demo_world\<lparr>store := [(''k'', demo_file)],
                    requests := [UploadBytes (Ref ''k'') demo_file, GetDownloadURL (Ref ''k'')]\<rparr>)"
proof -
  have enc: "encodeURIComponent ''k'' = Inr ''k''" by code_simp
  have 1: "uploadBytes (rejecting_platform (FirebaseError ''storage/unauthorized'')) (ref ''k'') demo_file
             (store demo_world) = (Inl (FirebaseError ''storage/unauthorized''), [])"
    by (simp add: rejecting_platform_def demo_world_def)
  have 2: "uploadBytes (unresolving_platform (FirebaseError ''storage/retry-limit-exceeded'')) (ref ''k'')
             demo_file (store demo_world) = (Inr (), [(''k'', demo_file)])
           \<and> getDownloadURL (unresolving_platform (FirebaseError ''storage/retry-limit-exceeded''))
               (ref ''k'') [(''k'', demo_file)]
             = (Inl (FirebaseError ''storage/retry-limit-exceeded''), [(''k'', demo_file)])"
    by (simp add: unresolving_platform_def demo_world_def ref_def)
  have 3: "uploadBytes demo_platform (ref ''k'') demo_file (store demo_world)
             = (Inr (), [(''k'', demo_file)])
           \<and> getDownloadURL demo_platform (ref ''k'') [(''k'', demo_file)]
             = (Inr ''https://storage.example/v0/b/demo-bucket/o/k?alt=media&token=t0'',
                [(''k'', demo_file)])"
    by (simp add: demo_platform_def demo_world_def ref_def enc)
  from 1 2 3
    uploadImage_outcomes[of "rejecting_platform (FirebaseError ''storage/unauthorized'')" "''k''"
      demo_file demo_world "FirebaseError ''storage/unauthorized''" "[]"]
    uploadImage_outcomes[of "unresolving_platform (FirebaseError ''storage/retry-limit-exceeded'')" "''k''"
      demo_file demo_world "FirebaseError ''storage/retry-limit-exceeded''" "[(''k'', demo_file)]"
      "[(''k'', demo_file)]"]
    uploadImage_outcomes[of demo_platform "''k''" demo_file demo_world _ "[(''k'', demo_file)]"
      "[(''k'', demo_file)]" "''https://storage.example/v0/b/demo-bucket/o/k?alt=media&token=t0''"]
  show ?thesis by (simp add: ref_def demo_world_def)
qed

section \<open>Deleter\<close>

text \<open>
  C5: for every URL, every platform and every outcome of the provider's delete call, the
  promise of \<^verbatim>\<open>deleteImage\<close> resolves. When the delete call rejects with the not-found
  error, nothing is written to the console; when it rejects with anything else, the
  error is written to the console with \<^verbatim>\<open>console.error\<close> and then dropped.
\<close>

theorem deleteImage_never_rejects:
  "fst (deleteImage P imageUrl w) = Inr ()
   \<and> (deleteImage_path P imageUrl = Inr path \<and> path \<noteq> []
        \<and> deleteObject P (ref path) (store w) = (Inl e, s') \<longrightarrow>
      deleteImage P imageUrl w
        = (Inr (),
           w\<lparr>store := s', requests := requests w @ [DeleteObject (ref path)],
             console := (if e = FirebaseError ''storage/object-not-found'' then console w
                         else console w @ [(''Error deleting image:'', e)])\<rparr>))"
proof -
  have a: "fst (deleteImage P imageUrl w) = Inr ()"
    by (simp add: deleteImage_def split: prod.splits sum.splits)
  have b: "deleteImage P imageUrl w
        = (Inr (),
           w\<lparr>store := s', requests := requests w @ [DeleteObject (ref path)],
             console := (if e = FirebaseError ''storage/object-not-found'' then console w
                         else console w @ [(''Error deleting image:'', e)])\<rparr>)"
    if "deleteImage_path P imageUrl = Inr path" "path \<noteq> []"
       "deleteObject P (ref path) (store w) = (Inl e, s')"
    using that not_found_iff[of e "''storage/object-not-found''"]
    by (auto simp: deleteImage_def deleteImage_try_def send_deleteObject_def console_error_def)
  from a b show ?thesis by blast
qed

text \<open>C5 at a provider that rejects with a permission error, and at one that reports not-found.\<close>

theorem deleteImage_never_rejects_witness:
  "deleteImage (rejecting_platform (FirebaseError ''storage/unauthorized''))
       ''https://storage.example/v0/b/demo-bucket/o/k?alt=media'' demo_world
     = (Inr (), demo_world\<lparr>store := [], requests := [DeleteObject (Ref ''k'')],
                 console := [(''Error deleting image:'', FirebaseError ''storage/unauthorized'')]\<rparr>)
   \<and> deleteImage demo_platform ''https://storage.example/v0/b/demo-bucket/o/k?alt=media'' demo_world
     = (Inr (), demo_world\<lparr>store := [], requests := [DeleteObject (Ref ''k'')], console := []\<rparr>)"
proof -
  have p1: "deleteImage_path (rejecting_platform (FirebaseError ''storage/unauthorized''))
              ''https://storage.example/v0/b/demo-bucket/o/k?alt=media'' = Inr ''k''"
    by code_simp
  have p2: "deleteImage_path demo_platform
              ''https://storage.example/v0/b/demo-bucket/o/k?alt=media'' = Inr ''k''"
    by code_simp
  have d1: "deleteObject (rejecting_platform (FirebaseError ''storage/unauthorized'')) (ref ''k'')
              (store demo_world) = (Inl (FirebaseError ''storage/unauthorized''), [])"
    by (simp add: rejecting_platform_def demo_world_def)
  have d2: "deleteObject demo_platform (ref ''k'') (store demo_world)
              = (Inl (FirebaseError ''storage/object-not-found''), [])"
    by (simp add: demo_platform_def demo_world_def ref_def)
  from p1 d1 deleteImage_never_rejects[of "rejecting_platform (FirebaseError ''storage/unauthorized'')"
      "''https://storage.example/v0/b/demo-bucket/o/k?alt=media''" demo_world "''k''"
      "FirebaseError ''storage/unauthorized''" "[]"]
  have 1: "deleteImage (rejecting_platform (FirebaseError ''storage/unauthorized''))
       ''https://storage.example/v0/b/demo-bucket/o/k?alt=media'' demo_world
     = (Inr (), demo_world\<lparr>store := [], requests := [DeleteObject (Ref ''k'')],
                 console := [(''Error deleting image:'', FirebaseError ''storage/unauthorized'')]\<rparr>)"
    by (simp add: ref_def demo_world_def)
  from p2 d2 deleteImage_never_rejects[of demo_platform
      "''https://storage.example/v0/b/demo-bucket/o/k?alt=media''" demo_world "''k''"
      "FirebaseError ''storage/object-not-found''" "[]"]
  have 2: "deleteImage demo_platform ''https://storage.example/v0/b/demo-bucket/o/k?alt=media'' demo_world
     = (Inr (), demo_world\<lparr>store := [], requests := [DeleteObject (Ref ''k'')], console := []\<rparr>)"
    by (simp add: ref_def demo_world_def)
  from 1 2 show ?thesis by simp
qed

text \<open>
  C4, as stated, does not hold. For the string \<^verbatim>\<open>not a url\<close> the \<^verbatim>\<open>URL\<close> constructor throws
  inside the \<^verbatim>\<open>try\<close> block, so the parsing yields no key and no request is sent, but the
  \<^verbatim>\<open>catch\<close> block writes the error with \<^verbatim>\<open>console.error\<close>: the call is not silent.
\<close>

theorem deleteImage_silent_counterexample:
  "deleteImage_path demo_platform ''not a url'' = Inl TypeError
   \<and> requests (snd (deleteImage demo_platform ''not a url'' demo_world)) = []
   \<and> console demo_world = []
   \<and> console (snd (deleteImage demo_platform ''not a url'' demo_world))
       = [(''Error deleting image:'', TypeError)]"
  by code_simp

text \<open>
  C4, amended: whenever the two parsing statements yield no key (the \<^verbatim>\<open>URL\<close> constructor
  throws, the decoder throws, or the path is empty), \<^verbatim>\<open>deleteImage\<close> sends no request to
  the store, leaves the store as it is, and its promise resolves. For a URL that parses
  and whose path does not contain the marker \<^verbatim>\<open>/o/\<close>, the parsed key is empty and the call
  changes nothing at all, the console included. When the constructor or the decoder
  throws, the thrown error is written to the console with \<^verbatim>\<open>console.error\<close> (unless it
  carries the not-found code) before the promise resolves.
\<close>

theorem deleteImage_no_key:
  "((case deleteImage_path P imageUrl of Inl e \<Rightarrow> True | Inr path \<Rightarrow> path = []) \<longrightarrow>
      fst (deleteImage P imageUrl w) = Inr ()
      \<and> requests (snd (deleteImage P imageUrl w)) = requests w
      \<and> store (snd (deleteImage P imageUrl w)) = store w)
   \<and> (new_URL P imageUrl = Inr u \<and> \<not> sublist ''/o/'' (pathname u) \<longrightarrow>
      deleteImage_path P imageUrl = Inr [] \<and> deleteImage P imageUrl w = (Inr (), w))
   \<and> (deleteImage_path P imageUrl = Inr [] \<longrightarrow> deleteImage P imageUrl w = (Inr (), w))
   \<and> (deleteImage_path P imageUrl = Inl e' \<longrightarrow>
      deleteImage P imageUrl w
        = (Inr (),
           if e' = FirebaseError ''storage/object-not-found'' then w
           else w\<lparr>console := console w @ [(''Error deleting image:'', e')]\<rparr>))"
proof -
  have a: "fst (deleteImage P imageUrl w) = Inr ()
      \<and> requests (snd (deleteImage P imageUrl w)) = requests w
      \<and> store (snd (deleteImage P imageUrl w)) = store w"
    if "case deleteImage_path P imageUrl of Inl e \<Rightarrow> True | Inr path \<Rightarrow> path = []"
    using that
    by (auto simp: deleteImage_def deleteImage_try_def console_error_def split: sum.splits)
  have b: "deleteImage_path P imageUrl = Inr []"
    if "new_URL P imageUrl = Inr u" "\<not> sublist ''/o/'' (pathname u)"
    using that by (simp add: deleteImage_path_def marker_segment_absent)
  have c: "deleteImage P imageUrl w = (Inr (), w)" if "deleteImage_path P imageUrl = Inr []"
    using that by (simp add: deleteImage_def deleteImage_try_def)
  have d: "deleteImage P imageUrl w
        = (Inr (),
           if e' = FirebaseError ''storage/object-not-found'' then w
           else w\<lparr>console := console w @ [(''Error deleting image:'', e')]\<rparr>)"
    if "deleteImage_path P imageUrl = Inl e'"
    using deleteImage_parse_error_logged[OF that, of w] by (simp add: console_error_def)
  from a b c d show ?thesis by blast
qed

text \<open>
  C4, amended, at a foreign URL without the marker, at a string that is no URL, and at a
  URL whose marker segment holds a broken escape.
\<close>

theorem deleteImage_no_key_witness:
  "deleteImage demo_platform ''https://cdn.example/images/photo.jpg?size=2'' demo_world
     = (Inr (), demo_world)
   \<and> deleteImage demo_platform ''not a url'' demo_world
     = (Inr (), demo_world\<lparr>console := [(''Error deleting image:'', TypeError)]\<rparr>)
   \<and> deleteImage demo_platform ''https://storage.example/v0/b/demo-bucket/o/%zz'' demo_world
     = (Inr (), demo_world\<lparr>console := [(''Error deleting image:'', URIError)]\<rparr>)"
proof -
  have u: "new_URL demo_platform ''https://cdn.example/images/photo.jpg?size=2''
             = Inr \<lparr>pathname = ''/images/photo.jpg''\<rparr>"
    by code_simp
  have n: "\<not> sublist ''/o/'' (pathname \<lparr>pathname = ''/images/photo.jpg''\<rparr>)"
    by code_simp
  have p: "deleteImage_path demo_platform ''not a url'' = Inl TypeError"
    by code_simp
  have q: "deleteImage_path demo_platform ''https://storage.example/v0/b/demo-bucket/o/%zz''
             = Inl URIError"
    by code_simp
  from deleteImage_no_key[of demo_platform "''https://cdn.example/images/photo.jpg?size=2''"
      demo_world "\<lparr>pathname = ''/images/photo.jpg''\<rparr>"] u n
  have 1: "deleteImage demo_platform ''https://cdn.example/images/photo.jpg?size=2'' demo_world
     = (Inr (), demo_world)" by blast
  from deleteImage_no_key[of demo_platform "''not a url''" demo_world _ TypeError] p
  have 2: "deleteImage demo_platform ''not a url'' demo_world
     = (Inr (), demo_world\<lparr>console := console demo_world @ [(''Error deleting image:'', TypeError)]\<rparr>)"
    by simp
  from deleteImage_no_key[of demo_platform "''https://storage.example/v0/b/demo-bucket/o/%zz''"
      demo_world _ URIError] q
  have 3: "deleteImage demo_platform ''https://storage.example/v0/b/demo-bucket/o/%zz'' demo_world
     = (Inr (), demo_world\<lparr>console := console demo_world @ [(''Error deleting image:'', URIError)]\<rparr>)"
    by simp
  from 1 2 3 show ?thesis by (simp add: demo_world_def)
qed

section \<open>Percent-encoding and decoding are inverse\<close>

lemma hex_value_hex_digit: "d < 16 \<Longrightarrow> hex_value (hex_digit d) = Some d"
  by (auto simp: hex_digit_def hex_value_def Let_def)

lemma hex_octet_encode:
  "hex_octet [hex_digit ((of_char c :: nat) div 16), hex_digit ((of_char c :: nat) mod 16)] = Some c"
proof -
  have "(of_char c :: nat) < 256" by simp
  then have "(of_char c :: nat) div 16 < 16" by arith
  moreover have "(of_char c :: nat) mod 16 < 16" by simp
  moreover have "char_of (16 * ((of_char c :: nat) div 16) + (of_char c :: nat) mod 16) = c"
    by simp
  ultimately show ?thesis by (simp add: hex_value_hex_digit)
qed

lemma high_not_unreserved: "128 \<le> (of_char c :: nat) \<Longrightarrow> \<not> uriUnreserved c"
  by (auto simp: uriUnreserved_def)

lemma percent_not_unreserved: "\<not> uriUnreserved CHR ''%''"
  by (simp add: uriUnreserved_def)

lemma encode_octet_reserved:
  "\<not> uriUnreserved c \<Longrightarrow>
   encode_octet c = [CHR ''%'', hex_digit ((of_char c :: nat) div 16), hex_digit ((of_char c :: nat) mod 16)]"
  by (simp add: encode_octet_def)

lemma continuation_octets_encode:
  "\<forall>x\<in>set xs. \<not> uriUnreserved x \<Longrightarrow>
   continuation_octets (length xs) (concat (map encode_octet xs) @ rest) = Some xs"
  by (induction xs) (simp_all add: encode_octet_reserved hex_octet_encode del: hex_octet.simps)

lemma length_encode_reserved:
  "\<forall>x\<in>set xs. \<not> uriUnreserved x \<Longrightarrow> length (concat (map encode_octet xs)) = 3 * length xs"
  by (induction xs) (simp_all add: encode_octet_reserved)

lemma utf8_octets_tail: "utf8_octets (a # bs) \<Longrightarrow> \<forall>b\<in>set bs. 128 \<le> b"
  by (induction "a # bs" rule: utf8_octets.induct) (auto simp: continuation_def)

lemma utf8_octets_length:
  "utf8_octets (a # bs) \<Longrightarrow>
   length bs = (if a < 224 then 1 else if a < 240 then 2 else 3)"
  by (induction "a # bs" rule: utf8_octets.induct) (auto simp: continuation_def)

lemma utf8_sequence_tail: "utf8_sequence (c # ys) \<Longrightarrow> \<forall>y\<in>set ys. \<not> uriUnreserved y"
proof
  fix y assume u: "utf8_sequence (c # ys)" and y: "y \<in> set ys"
  from u have "\<forall>b\<in>set (map of_char ys). (128::nat) \<le> b"
    using utf8_octets_tail[of "of_char c" "map of_char ys"] by (simp add: utf8_sequence_def)
  with y have "128 \<le> (of_char y :: nat)" by simp
  then show "\<not> uriUnreserved y" by (rule high_not_unreserved)
qed

lemma utf8_sequence_length:
  "utf8_sequence (c # ys) \<Longrightarrow> 2 \<le> leading_ones c \<Longrightarrow> leading_ones c \<le> 4 \<Longrightarrow>
   length ys = leading_ones c - 1"
  using utf8_octets_length[of "of_char c" "map of_char ys"]
  by (auto simp: utf8_sequence_def leading_ones_def Let_def split: if_splits)

lemma leading_ones_high: "leading_ones c \<noteq> 0 \<Longrightarrow> 128 \<le> (of_char c :: nat)"
  by (simp add: leading_ones_def Let_def split: if_splits)

lemma decode_unreserved:
  "uriUnreserved c \<Longrightarrow> decodeURIComponent (encode_octet c @ t) = append_result [c] (decodeURIComponent t)"
  using percent_not_unreserved by (auto simp: encode_octet_def)

lemma decode_ascii_escape:
  assumes "\<not> uriUnreserved c" "leading_ones c = 0"
  shows "decodeURIComponent (encode_octet c @ t) = append_result [c] (decodeURIComponent t)"
  using assms hex_octet_encode[of c]
  by (simp add: encode_octet_reserved del: hex_octet.simps)

lemma decode_multi_escape:
  assumes n: "2 \<le> leading_ones c" "leading_ones c \<le> 4"
    and seq: "utf8_sequence (c # ys)"
  shows "decodeURIComponent (concat (map encode_octet (c # ys)) @ t)
           = append_result (c # ys) (decodeURIComponent t)"
proof -
  have c: "\<not> uriUnreserved c"
    using n leading_ones_high[of c] high_not_unreserved[of c] by simp
  have ys: "\<forall>y\<in>set ys. \<not> uriUnreserved y" using seq by (rule utf8_sequence_tail)
  have len: "length ys = leading_ones c - 1" using seq n by (rule utf8_sequence_length)
  have co: "continuation_octets (leading_ones c - 1) (concat (map encode_octet ys) @ t) = Some ys"
    using continuation_octets_encode[OF ys, of t] len by simp
  have dr: "drop (3 * (leading_ones c - 1)) (concat (map encode_octet ys) @ t) = t"
    using length_encode_reserved[OF ys] len by simp
  show ?thesis
    using n seq co dr hex_octet_encode[of c]
    by (simp add: encode_octet_reserved[OF c] del: hex_octet.simps)
qed

lemma decode_encode:
  "well_formed_utf8 s \<Longrightarrow> decodeURIComponent (concat (map encode_octet s)) = Inr s"
proof (induction s rule: well_formed_utf8.induct)
  case 1
  show ?case by simp
next
  case (2 c cs)
  show ?case
  proof (cases "leading_ones c = 0")
    case True
    with 2 have ih: "decodeURIComponent (concat (map encode_octet cs)) = Inr cs" by simp
    show ?thesis
    proof (cases "uriUnreserved c")
      case True
      then show ?thesis using decode_unreserved[of c "concat (map encode_octet cs)"] ih by simp
    next
      case False
      then show ?thesis
        using decode_ascii_escape[of c "concat (map encode_octet cs)"] ih True by simp
    qed
  next
    case False
    let ?n = "leading_ones c"
    from False 2(3) have n: "2 \<le> ?n" "?n \<le> 4"
      and seq: "utf8_sequence (c # take (?n - 1) cs)"
      and wf: "well_formed_utf8 (drop (?n - 1) cs)"
      by (auto split: if_splits)
    from n have n': "\<not> (?n = 1 \<or> 4 < ?n)" by simp
    from 2(2)[OF False n' wf]
    have ih: "decodeURIComponent (concat (map encode_octet (drop (?n - 1) cs))) = Inr (drop (?n - 1) cs)" .
    have "concat (map encode_octet (c # cs))
            = concat (map encode_octet (c # take (?n - 1) cs)) @ concat (map encode_octet (drop (?n - 1) cs))"
      by (metis append_Cons append_take_drop_id concat_append map_append)
    then show ?thesis
      using decode_multi_escape[OF n seq, of "concat (map encode_octet (drop (?n - 1) cs))"] ih
      by simp
  qed
qed

lemma encode_chars:
  "x \<in> set (encode_octet c) \<Longrightarrow> x \<noteq> CHR ''/'' \<and> x \<noteq> CHR ''?''"
proof -
  have d: "\<And>d. d < 16 \<Longrightarrow> hex_digit d \<noteq> CHR ''/'' \<and> hex_digit d \<noteq> CHR ''?''"
  proof -
    fix d :: nat assume "d < 16"
    then have "(48 \<le> (of_char (hex_digit d) :: nat) \<and> (of_char (hex_digit d) :: nat) \<le> 57)
               \<or> (65 \<le> (of_char (hex_digit d) :: nat) \<and> (of_char (hex_digit d) :: nat) \<le> 70)"
      by (auto simp: hex_digit_def)
    then show "hex_digit d \<noteq> CHR ''/'' \<and> hex_digit d \<noteq> CHR ''?''" by auto
  qed
  have "(of_char c :: nat) < 256" by simp
  then have hi: "(of_char c :: nat) div 16 < 16" by arith
  have lo: "(of_char c :: nat) mod 16 < 16" by simp
  assume "x \<in> set (encode_octet c)"
  then show ?thesis
    using d[OF hi] d[OF lo]
    by (auto simp: encode_octet_def uriUnreserved_def split: if_splits)
qed

section \<open>Well-formed inputs give keys that can be encoded\<close>

lemma utf8_sequence_high:
  "utf8_sequence (c # ys) \<Longrightarrow> y \<in> set ys \<Longrightarrow> leading_ones y \<noteq> 0"
proof -
  assume u: "utf8_sequence (c # ys)" and y: "y \<in> set ys"
  from u have "\<forall>b\<in>set (map of_char ys). (128::nat) \<le> b"
    using utf8_octets_tail[of "of_char c" "map of_char ys"] by (simp add: utf8_sequence_def)
  with y have "128 \<le> (of_char y :: nat)" by simp
  then show ?thesis by (simp add: leading_ones_def Let_def)
qed

lemma well_formed_utf8_append:
  "well_formed_utf8 a \<Longrightarrow> well_formed_utf8 b \<Longrightarrow> well_formed_utf8 (a @ b)"
proof (induction a rule: well_formed_utf8.induct)
  case 1
  then show ?case by simp
next
  case (2 c cs)
  show ?case
  proof (cases "leading_ones c = 0")
    case True
    with 2 show ?thesis by simp
  next
    case False
    let ?n = "leading_ones c"
    from False 2(3) have n: "2 \<le> ?n" "?n \<le> 4"
      and seq: "utf8_sequence (c # take (?n - 1) cs)"
      and wf: "well_formed_utf8 (drop (?n - 1) cs)"
      by (auto split: if_splits)
    from n have n': "\<not> (?n = 1 \<or> 4 < ?n)" by simp
    have len: "length (take (?n - 1) cs) = ?n - 1" using seq n by (rule utf8_sequence_length)
    then have le: "?n - 1 \<le> length cs" by simp
    from 2(2)[OF False n' wf 2(4)] have "well_formed_utf8 (drop (?n - 1) cs @ b)" .
    with seq le n' False show ?thesis by simp
  qed
qed

lemma well_formed_utf8_after_ascii:
  "well_formed_utf8 (a @ c # b) \<Longrightarrow> leading_ones c = 0 \<Longrightarrow> well_formed_utf8 b"
proof (induction a rule: well_formed_utf8.induct)
  case 1
  then show ?case by simp
next
  case (2 x xs)
  show ?case
  proof (cases "leading_ones x = 0")
    case True
    with 2 show ?thesis by simp
  next
    case False
    let ?n = "leading_ones x"
    from False 2(3) have n: "2 \<le> ?n" "?n \<le> 4"
      and seq: "utf8_sequence (x # take (?n - 1) (xs @ c # b))"
      and wf: "well_formed_utf8 (drop (?n - 1) (xs @ c # b))"
      by (auto split: if_splits)
    from n have n': "\<not> (?n = 1 \<or> 4 < ?n)" by simp
    have le: "?n - 1 \<le> length xs"
    proof (rule ccontr)
      assume "\<not> ?n - 1 \<le> length xs"
      then have "c \<in> set (take (?n - 1) (xs @ c # b))"
        by (cases "?n - 1 - length xs") auto
      with utf8_sequence_high[OF seq] 2(4) show False by blast
    qed
    then have "drop (?n - 1) (xs @ c # b) = drop (?n - 1) xs @ c # b" by simp
    with wf 2(2)[OF False n' _ 2(4)] show ?thesis by simp
  qed
qed

lemma ascii_well_formed: "\<forall>c\<in>set s. leading_ones c = 0 \<Longrightarrow> well_formed_utf8 s"
  by (induction s) auto

lemma Number_toString_well_formed: "well_formed_utf8 (Number_toString i)"
proof (rule ascii_well_formed, rule ballI)
  fix c assume c: "c \<in> set (Number_toString i)"
  have "(of_char c :: int) \<le> 57"
  proof (cases "i < 0")
    case True
    with c have "c = CHR ''-'' \<or> c \<in> set (decimal_digits (- i))" by (simp add: Number_toString_def)
    with decimal_digits_range[of "- i" c] True show ?thesis by auto
  next
    case False
    with c have "c \<in> set (decimal_digits i)" by (simp add: Number_toString_def)
    with decimal_digits_range[of i c] False show ?thesis by auto
  qed
  then have "(of_char c :: nat) \<le> 57"
    by (metis of_nat_le_iff of_nat_numeral of_nat_of_char)
  then show "leading_ones c = 0" by (simp add: leading_ones_def Let_def)
qed

lemma extension_well_formed:
  "well_formed_utf8 fileName \<Longrightarrow>
   well_formed_utf8 (template_string (Array_pop (String_split fileName ''.'')))"
proof (cases "CHR ''.'' \<in> set fileName")
  case False
  assume "well_formed_utf8 fileName"
  with False show ?thesis by (simp add: pop_split_absent)
next
  case True
  assume wf: "well_formed_utf8 fileName"
  from split_list_last[OF True] obtain pre ext where
    f: "fileName = pre @ CHR ''.'' # ext" and e: "CHR ''.'' \<notin> set ext" by blast
  have "leading_ones CHR ''.'' = 0" by (simp add: leading_ones_def Let_def)
  with wf f have "well_formed_utf8 ext" using well_formed_utf8_after_ascii by blast
  moreover have "Array_pop (String_split fileName ''.'') = Some ext"
    using pop_split_last[OF e, of pre] f by simp
  ultimately show ?thesis by simp
qed

lemma path_builders_well_formed:
  assumes "well_formed_utf8 userId" "well_formed_utf8 tattooId"
  shows "well_formed_utf8 fileName \<Longrightarrow> well_formed_utf8 (getTattooImagePath w userId tattooId fileName)"
    and "well_formed_utf8 (getGeneratedTattooImagePath w userId tattooId)"
proof -
  have lit: "well_formed_utf8 ''tattoos/''" "well_formed_utf8 ''generated_tattoos/''"
    "well_formed_utf8 ''/''" "well_formed_utf8 ''_''" "well_formed_utf8 ''.''" "well_formed_utf8 ''.png''"
    by (simp_all add: leading_ones_def Let_def)
  show "well_formed_utf8 (getGeneratedTattooImagePath w userId tattooId)"
    unfolding getGeneratedTattooImagePath_def Let_def
    by (intro well_formed_utf8_append assms lit Number_toString_well_formed)
  show "well_formed_utf8 (getTattooImagePath w userId tattooId fileName)" if "well_formed_utf8 fileName"
    unfolding getTattooImagePath_def Let_def
    by (intro well_formed_utf8_append assms lit Number_toString_well_formed extension_well_formed that)
qed

lemma path_builders_encodable:
  assumes "well_formed_utf8 userId" "well_formed_utf8 tattooId"
  shows "well_formed_utf8 fileName \<Longrightarrow>
         \<exists>enc. encodeURIComponent (getTattooImagePath w userId tattooId fileName) = Inr enc"
    and "\<exists>enc. encodeURIComponent (getGeneratedTattooImagePath w userId tattooId) = Inr enc"
  using path_builders_well_formed[OF assms] by (simp_all add: encodeURIComponent_def)

section \<open>Deleter: the key is recovered from an issued URL\<close>

lemma split_scan_first_match:
  "sep \<noteq> [] \<Longrightarrow> \<not> sublist sep (a @ butlast sep) \<Longrightarrow>
   split_scan sep cur (a @ sep @ rest) = (cur @ a) # split_scan sep [] rest"
proof (induction a arbitrary: cur)
  case Nil
  then obtain x xs where sep: "sep = x # xs" by (cases sep) auto
  show ?case unfolding sep by simp
next
  case (Cons y a)
  have np: "\<not> prefix sep (y # a @ sep @ rest)"
  proof
    assume p: "prefix sep (y # a @ sep @ rest)"
    have e: "y # a @ sep @ rest = ((y # a) @ butlast sep) @ ([last sep] @ rest)"
      using Cons.prems(1) by simp
    have l: "length sep \<le> length ((y # a) @ butlast sep)" by simp
    from p have "prefix sep (((y # a) @ butlast sep) @ ([last sep] @ rest))"
      unfolding e .
    then have "prefix sep ((y # a) @ butlast sep)"
      using l by (rule prefix_length_prefix[OF _ prefixI[OF refl]])
    then have "sublist sep ((y # a) @ butlast sep)" by (rule prefix_imp_sublist)
    with Cons.prems(2) show False by simp
  qed
  have ns: "\<not> sublist sep (a @ butlast sep)"
    using Cons.prems(2) by (simp add: sublist_Cons_right)
  from Cons.IH[OF Cons.prems(1) ns, of "cur @ [y]"] np show ?case by simp
qed

lemma split_scan_skip:
  "CHR ''/'' \<notin> set a \<Longrightarrow> split_scan ''/o/'' cur (a @ r) = split_scan ''/o/'' (cur @ a) r"
  by (induction a arbitrary: cur) auto

lemma split_scan_hd_extends: "\<exists>t. hd (split_scan sep cur s) = cur @ t"
  by (induction sep cur s rule: split_scan.induct) auto

lemma Array_at_0: "xs \<noteq> [] \<Longrightarrow> Array_at xs 0 = Some (hd xs)"
  by (cases xs) (simp_all add: Array_at_def)

lemma takeWhile_stop:
  "c \<notin> set a \<Longrightarrow> takeWhile (\<lambda>x. x \<noteq> c) (a @ c # t) = a"
  by (induction a) auto

lemma takeWhile_all:
  "c \<notin> set a \<Longrightarrow> takeWhile (\<lambda>x. x \<noteq> c) a = a"
  by (induction a) auto

lemma marker_segment_found:
  assumes loc: "\<not> sublist ''/o/'' (location @ ''/o'')"
    and slash: "CHR ''/'' \<notin> set enc" and quest: "CHR ''?'' \<notin> set enc"
    and q: "query = [] \<or> prefix ''?'' query"
  shows "marker_segment (location @ ''/o/'' @ enc @ query) = Some enc"
proof -
  have 1: "split_scan ''/o/'' [] (location @ ''/o/'' @ enc @ query)
             = location # split_scan ''/o/'' enc query"
    using split_scan_first_match[of "''/o/''" location "[]" "enc @ query"] loc
      split_scan_skip[OF slash, of "[]" query]
    by simp
  obtain t where t: "hd (split_scan ''/o/'' enc query) = enc @ t" "t = [] \<or> prefix ''?'' t"
  proof (cases query)
    case Nil
    then have "hd (split_scan ''/o/'' enc query) = enc @ []" by simp
    then show ?thesis using that by blast
  next
    case (Cons c q')
    with q have c: "c = CHR ''?''" by simp
    obtain t' where "hd (split_scan ''/o/'' (enc @ ''?'') q') = (enc @ ''?'') @ t'"
      using split_scan_hd_extends by blast
    then have "hd (split_scan ''/o/'' enc query) = enc @ (CHR ''?'' # t')"
      using Cons c by simp
    then show ?thesis using that[of "CHR ''?'' # t'"] by simp
  qed
  have 2: "Array_at (String_split (location @ ''/o/'' @ enc @ query) ''/o/'') 1
             = Some (enc @ t)"
    using 1 t(1) split_scan_nonempty[of "''/o/''" enc query]
    by (cases "split_scan ''/o/'' enc query") (simp_all add: String_split_def Array_at_def)
  have 3: "takeWhile (\<lambda>x. x \<noteq> CHR ''?'') (enc @ t) = enc"
  proof (cases t)
    case Nil
    then show ?thesis using takeWhile_all[OF quest] by simp
  next
    case (Cons c t')
    with t(2) have "c = CHR ''?''" by simp
    with Cons show ?thesis using takeWhile_stop[OF quest, of t'] by simp
  qed
  have 4: "Array_at (String_split (enc @ t) ''?'') 0 = Some enc"
    using 3 by (simp add: String_split_def Array_at_0 split_scan_nonempty split_scan_hd)
  show ?thesis using 2 4 by (simp add: marker_segment_def)
qed

lemma encodeURIComponent_Inr:
  assumes "encodeURIComponent K = Inr enc"
  shows "decodeURIComponent enc = Inr K" "CHR ''/'' \<notin> set enc" "CHR ''?'' \<notin> set enc"
proof -
  from assms have wf: "well_formed_utf8 K" and enc: "enc = concat (map encode_octet K)"
    by (auto simp: encodeURIComponent_def split: if_splits)
  show "decodeURIComponent enc = Inr K" using decode_encode[OF wf] enc by simp
  show "CHR ''/'' \<notin> set enc" using encode_chars unfolding enc by fastforce
  show "CHR ''?'' \<notin> set enc" using encode_chars unfolding enc by fastforce
qed

lemma deleteImage_requests:
  assumes "deleteImage_path P imageUrl = Inr K" "K \<noteq> []"
  shows "requests (snd (deleteImage P imageUrl w)) = requests w @ [DeleteObject (ref K)]"
  using assms
  by (auto simp: deleteImage_def deleteImage_try_def send_deleteObject_def console_error_def
      split: prod.splits sum.splits)

text \<open>
  C1: let \<open>K\<close> be a key made by one of the path builders, \<open>enc\<close> its percent-encoding
  (so a download URL can be issued for \<open>K\<close>), and \<open>imageUrl\<close> a URL whose path is some
  location, the marker \<^verbatim>\<open>/o/\<close> (its first occurrence in the path), \<open>enc\<close>, and then
  nothing or a part that starts with \<^verbatim>\<open>?\<close>. Then the parsing statements of
  \<^verbatim>\<open>deleteImage\<close> recover exactly \<open>K\<close>, whatever octets \<open>K\<close> holds, and
  \<^verbatim>\<open>deleteImage\<close> sends exactly one request: the deletion of the reference for \<open>K\<close>.
\<close>

theorem deleteImage_recovers_key:
  assumes K: "K = getTattooImagePath w0 userId tattooId fileName
              \<or> K = getGeneratedTattooImagePath w0 userId tattooId"
    and enc: "encodeURIComponent K = Inr enc"
    and u: "new_URL P imageUrl = Inr u"
    and p: "pathname u = location @ ''/o/'' @ enc @ query"
    and loc: "\<not> sublist ''/o/'' (location @ ''/o'')"
    and q: "query = [] \<or> prefix ''?'' query"
  shows "deleteImage_path P imageUrl = Inr K
         \<and> requests (snd (deleteImage P imageUrl w)) = requests w @ [DeleteObject (ref K)]"
proof -
  from K have ne: "K \<noteq> []"
    by (auto simp: getTattooImagePath_def getGeneratedTattooImagePath_def)
  have enc_ne: "enc \<noteq> []"
    using encodeURIComponent_Inr(1)[OF enc] ne by auto
  have seg: "marker_segment (pathname u) = Some enc"
    unfolding p using loc encodeURIComponent_Inr(2,3)[OF enc] q by (rule marker_segment_found)
  have path: "deleteImage_path P imageUrl = Inr K"
    using u seg enc_ne encodeURIComponent_Inr(1)[OF enc] by (simp add: deleteImage_path_def)
  from path deleteImage_requests[OF path ne] show ?thesis by simp
qed

text \<open>
  C1 at a key with a non-ASCII letter and a space in the owner id: the URL holds
  \<^verbatim>\<open>%C3%A9\<close>, \<^verbatim>\<open>%20\<close> and \<^verbatim>\<open>%2F\<close>, and the deletion asks for the key as built.
\<close>

theorem deleteImage_recovers_key_witness:
  "getTattooImagePath demo_world [CHR ''u'', CHR 0xC3, CHR 0xA9, CHR '' ''] ''t1'' ''photo.jpg''
     = [CHR ''t'', CHR ''a'', CHR ''t'', CHR ''t'', CHR ''o'', CHR ''o'', CHR ''s'', CHR ''/'',
        CHR ''u'', CHR 0xC3, CHR 0xA9, CHR '' '', CHR ''/''] @ ''t1_1700000000000.jpg''
   \<and> deleteImage_path demo_platform
        ''https://storage.example/v0/b/demo-bucket/o/tattoos%2Fu%C3%A9%20%2Ft1_1700000000000.jpg?alt=media&token=t0''
     = Inr (getTattooImagePath demo_world [CHR ''u'', CHR 0xC3, CHR 0xA9, CHR '' ''] ''t1'' ''photo.jpg'')
   \<and> requests (snd (deleteImage demo_platform
        ''https://storage.example/v0/b/demo-bucket/o/tattoos%2Fu%C3%A9%20%2Ft1_1700000000000.jpg?alt=media&token=t0''
        demo_world))
     = [DeleteObject (Ref (getTattooImagePath demo_world [CHR ''u'', CHR 0xC3, CHR 0xA9, CHR '' ''] ''t1'' ''photo.jpg''))]"
proof -
  let ?K = "getTattooImagePath demo_world [CHR ''u'', CHR 0xC3, CHR 0xA9, CHR '' ''] ''t1'' ''photo.jpg''"
  let ?url = "''https://storage.example/v0/b/demo-bucket/o/tattoos%2Fu%C3%A9%20%2Ft1_1700000000000.jpg?alt=media&token=t0''"
  have k: "?K = [CHR ''t'', CHR ''a'', CHR ''t'', CHR ''t'', CHR ''o'', CHR ''o'', CHR ''s'', CHR ''/'',
        CHR ''u'', CHR 0xC3, CHR 0xA9, CHR '' '', CHR ''/''] @ ''t1_1700000000000.jpg''"
    by code_simp
  have enc: "encodeURIComponent ?K = Inr ''tattoos%2Fu%C3%A9%20%2Ft1_1700000000000.jpg''"
    by code_simp
  have u: "new_URL demo_platform ?url
             = Inr \<lparr>pathname = ''/v0/b/demo-bucket/o/tattoos%2Fu%C3%A9%20%2Ft1_1700000000000.jpg''\<rparr>"
    by code_simp
  have p: "pathname \<lparr>pathname = ''/v0/b/demo-bucket/o/tattoos%2Fu%C3%A9%20%2Ft1_1700000000000.jpg''\<rparr>
             = ''/v0/b/demo-bucket'' @ ''/o/'' @ ''tattoos%2Fu%C3%A9%20%2Ft1_1700000000000.jpg'' @ []"
    by simp
  have loc: "\<not> sublist ''/o/'' (''/v0/b/demo-bucket'' @ ''/o'')"
    by code_simp
  from deleteImage_recovers_key[OF disjI1[OF refl] enc u p loc disjI1[OF refl], of demo_world] k
  show ?thesis by (simp add: ref_def demo_world_def)
qed

end
